theory Spec2Isabelle
  imports Main "HOL-Library.Word"
begin

unbundle bit_operations_syntax

section \<open>Machine types\<close>

text \<open>
  The program is C++ for x86-64 with SSE2: \<open>size_t\<close> and \<open>uint64_t\<close> are 64-bit
  unsigned, \<open>int\<close> is 32-bit two's complement, \<open>uint16_t\<close> is 16-bit unsigned and a
  \<open>__m128i\<close> is a 128-bit vector. Arithmetic on words wraps, as the unsigned arithmetic
  of the program does. Member names lose the trailing underscore of the source
  (\<open>truncQname_\<close> is \<open>truncQname\<close>), which Isabelle does not admit in a name.
\<close>

type_synonym size_t = "64 word"
type_synonym uint64_t = "64 word"
type_synonym uint16_t = "16 word"
type_synonym c_int = "32 word"
type_synonym m128i = "128 word"

section \<open>SamConfig: printing a read name\<close>

text \<open>
  \<open>OutFileBuf\<close> is only declared in the source; \<open>o.write(c)\<close> appends one character
  to the output, so the buffer is the string written so far.
\<close>

type_synonym OutFileBuf = string

record SamConfig =
  truncQname :: bool
  omitsec :: bool
  pg_id :: string
  pg_pn :: string
  pg_vn :: string
  pg_cl :: string
  refnames :: "string list"
  reflens :: "size_t list"
  print_as :: bool
  print_xs :: bool
  print_xn :: bool
  print_cs :: bool
  print_cq :: bool
  print_x0 :: bool
  print_x1 :: bool
  print_xm :: bool
  print_xo :: bool
  print_xg :: bool
  print_nm :: bool
  print_md :: bool
  print_yf :: bool
  print_ym :: bool
  print_yp :: bool
  print_yt :: bool
  print_ys :: bool

text \<open>
  \<open>isspace\<close> of the C library in the default "C" locale: space, and the five control
  characters from horizontal tab (9) to carriage return (13).
\<close>

definition isspace :: "char \<Rightarrow> bool" where
  "isspace c = (of_char c = (32::nat) \<or> (9 \<le> (of_char c :: nat) \<and> (of_char c :: nat) \<le> 13))"

text \<open>
  The \<open>for\<close> loop of \<open>printReadName\<close>: \<open>i\<close> runs up to \<open>namelen\<close>; the first
  whitespace character returns from the function, any other character is written.
\<close>

function printReadName_loop :: "string \<Rightarrow> nat \<Rightarrow> nat \<Rightarrow> OutFileBuf \<Rightarrow> OutFileBuf" where
  "printReadName_loop name i namelen out =
     (if i < namelen then
        (if isspace (name ! i) then out
         else printReadName_loop name (i + 1) namelen (out @ [name ! i]))
      else out)"
  by pat_completeness auto
termination
  by (relation "measure (\<lambda>(name, i, namelen, out). namelen - i)") auto

definition printReadName :: "SamConfig \<Rightarrow> OutFileBuf \<Rightarrow> string \<Rightarrow> OutFileBuf" where
  "printReadName cfg out name =
     (let namelen = length name;
          namelen = (if namelen \<ge> 2 \<and>
                        name ! (namelen - 2) = CHR ''/'' \<and>
                        (name ! (namelen - 1) = CHR ''1'' \<or> name ! (namelen - 1) = CHR ''2'')
                     then namelen - 2 else namelen);
          namelen = (if truncQname cfg \<and> namelen > 255 then 255 else namelen)
      in printReadName_loop name 0 namelen out)"

subsection \<open>The read name as the specification words it\<close>

text \<open>
  The effective name: the input without a trailing \<open>/1\<close> or \<open>/2\<close>, then capped at 255
  characters when truncation is enabled. The printed name is its longest prefix that
  has no whitespace.
\<close>

definition has_mate_suffix :: "string \<Rightarrow> bool" where
  "has_mate_suffix name =
     (length name \<ge> 2 \<and>
      (drop (length name - 2) name = ''/1'' \<or> drop (length name - 2) name = ''/2''))"

definition effective_name :: "bool \<Rightarrow> string \<Rightarrow> string" where
  "effective_name trunc name =
     (let stripped = (if has_mate_suffix name then take (length name - 2) name else name)
      in if trunc then take 255 stripped else stripped)"

definition spec_read_name :: "bool \<Rightarrow> string \<Rightarrow> string" where
  "spec_read_name trunc name = takeWhile (\<lambda>c. \<not> isspace c) (effective_name trunc name)"

section \<open>SSEMetrics\<close>

text \<open>
  \<open>MUTEX_T\<close> and the scoped guard \<open>ThreadSafe\<close> are declared outside the source file,
  and the specification does not describe the guard. What a guard does to the mutex it
  is constructed over is therefore not modelled: the member \<open>lock\<close> is the record of the
  guards constructed over it, each with the flag it was given, and of their
  destructions.
\<close>

datatype guard_event = Constructed bool | Destroyed

type_synonym MUTEX_T = "guard_event list"

record SSEMetrics =
  dp :: uint64_t
  dpsat :: uint64_t
  dpfail :: uint64_t
  dpsucc :: uint64_t
  col :: uint64_t
  cell :: uint64_t
  inner :: uint64_t
  fixup :: uint64_t
  gathcell :: uint64_t
  gathsol :: uint64_t
  bt :: uint64_t
  btfail :: uint64_t
  btsucc :: uint64_t
  btcell :: uint64_t
  corerej :: uint64_t
  nrej :: uint64_t
  lock :: MUTEX_T

definition reset :: "SSEMetrics \<Rightarrow> SSEMetrics" where
  "reset m = m\<lparr>dp := 0, dpsat := 0, dpfail := 0, dpsucc := 0,
               col := 0, cell := 0, inner := 0, fixup := 0,
               gathcell := 0, gathsol := 0, bt := 0, btfail := 0, btsucc := 0, btcell := 0,
               corerej := 0, nrej := 0\<rparr>"

text \<open>
  \<open>merge\<close> takes its argument by reference, and nothing keeps a caller from passing the
  receiver itself. The metrics objects therefore live in a store, from the address of
  an object to its value; \<open>this\<close> and \<open>other\<close> are addresses, equal when the argument is
  the receiver.
\<close>

type_synonym metrics_store = "nat \<Rightarrow> SSEMetrics"

text \<open>
  A compound assignment \<open>f += o.f\<close> of \<open>merge\<close>, for the counter \<open>f\<close> that \<open>sel\<close> reads
  and \<open>upd\<close> writes: it reads the counter of the receiver and the counter of \<open>o\<close> in the
  store as the statements before it have left it, and writes the sum to the receiver.
\<close>

definition assign_add ::
  "((uint64_t \<Rightarrow> uint64_t) \<Rightarrow> SSEMetrics \<Rightarrow> SSEMetrics) \<Rightarrow> (SSEMetrics \<Rightarrow> uint64_t) \<Rightarrow>
   metrics_store \<Rightarrow> nat \<Rightarrow> nat \<Rightarrow> metrics_store" where
  "assign_add upd sel s this other =
     s(this := upd (\<lambda>_. sel (s this) + sel (s other)) (s this))"

text \<open>The sixteen compound assignments of \<open>merge\<close>, in the order of the source.\<close>

definition accumulate :: "metrics_store \<Rightarrow> nat \<Rightarrow> nat \<Rightarrow> metrics_store" where
  "accumulate s this other =
     (let s = assign_add dp_update dp s this other;
          s = assign_add dpsat_update dpsat s this other;
          s = assign_add dpfail_update dpfail s this other;
          s = assign_add dpsucc_update dpsucc s this other;
          s = assign_add col_update col s this other;
          s = assign_add cell_update cell s this other;
          s = assign_add inner_update inner s this other;
          s = assign_add fixup_update fixup s this other;
          s = assign_add gathcell_update gathcell s this other;
          s = assign_add gathsol_update gathsol s this other;
          s = assign_add bt_update bt s this other;
          s = assign_add btfail_update btfail s this other;
          s = assign_add btsucc_update btsucc s this other;
          s = assign_add btcell_update btcell s this other;
          s = assign_add corerej_update corerej s this other;
          s = assign_add nrej_update nrej s this other
      in s)"

text \<open>
  \<open>merge(o, getLock = false)\<close>: the guard \<open>ThreadSafe ts(&lock, getLock)\<close> is
  constructed over the receiver's mutex with the flag \<open>getLock\<close>, the sixteen additions
  follow, and the guard is destroyed at the end of the scope.
\<close>

definition merge :: "metrics_store \<Rightarrow> nat \<Rightarrow> nat \<Rightarrow> bool \<Rightarrow> metrics_store" where
  "merge s this other getLock =
     (let s = s(this := (s this)\<lparr>lock := lock (s this) @ [Constructed getLock]\<rparr>);
          s = accumulate s this other
      in s(this := (s this)\<lparr>lock := lock (s this) @ [Destroyed]\<rparr>))"

text \<open>The call \<open>m.merge(o)\<close> with one argument takes the default \<open>getLock = false\<close>.\<close>

definition merge_default :: "metrics_store \<Rightarrow> nat \<Rightarrow> nat \<Rightarrow> metrics_store" where
  "merge_default s this other = merge s this other False"

section \<open>Errors and the memory environment\<close>

text \<open>
  What can stop an operation: \<open>operator new[]\<close> throws \<open>std::bad_alloc\<close>; an assertion
  of the source (\<open>assert\<close>, \<open>assert_lt\<close>, ...) fails; a null pointer is dereferenced; an
  access leaves the allocated block; an unsigned division has divisor zero; \<open>delete[]\<close>
  is given an address that \<open>operator new[]\<close> did not return, which is undefined
  behaviour.
\<close>

datatype error = BadAlloc | AssertionFailed | NullPointer | OutOfBounds | DivisionByZero
  | InvalidDelete

text \<open>
  The global memory tally \<open>gMemTally\<close> is a sink: it is modelled by the calls made to
  it. The allocator is the environment: \<open>new_results\<close> lists the outcomes of the coming
  calls of \<open>operator new[]\<close>, each either a failure or the base address of the new
  block together with the (indeterminate) vectors found in it; \<open>live\<close> holds the base
  addresses of the blocks that \<open>operator new[]\<close> has returned and \<open>delete[]\<close> has not
  yet released.
\<close>

datatype tally_call = TallyAdd c_int size_t | TallyDel c_int size_t

record world =
  new_results :: "(size_t \<times> (nat \<Rightarrow> m128i)) option list"
  live :: "size_t list"
  gMemTally :: "tally_call list"

text \<open>
  \<open>new __m128i[n]\<close>: it throws, or it returns a non-null pointer to \<open>n\<close> vectors of 16
  bytes that lie in the address space. A call that throws has still consumed its
  outcome. An operation that stops returns the error together with the state it leaves
  behind.
\<close>

definition operator_new ::
  "size_t \<Rightarrow> world \<Rightarrow> (error \<times> world) + ((size_t \<times> (nat \<Rightarrow> m128i)) \<times> world)" where
  "operator_new n w =
     (case new_results w of
        [] \<Rightarrow> Inl (BadAlloc, w)
      | None # rest \<Rightarrow> Inl (BadAlloc, w\<lparr>new_results := rest\<rparr>)
      | Some (a, init) # rest \<Rightarrow>
          if a \<noteq> 0 \<and> unat a + 16 * unat n \<le> 2 ^ 64
          then Inr ((a, init), w\<lparr>new_results := rest, live := a # live w\<rparr>)
          else Inl (BadAlloc, w\<lparr>new_results := rest\<rparr>))"

text \<open>
  \<open>delete[] p\<close> for a non-null \<open>p\<close>: defined only when \<open>p\<close> is the base address of a
  live block, which it releases.
\<close>

definition operator_delete :: "size_t \<Rightarrow> world \<Rightarrow> (error \<times> world) + world" where
  "operator_delete p w =
     (if p \<in> set (live w) then Inr (w\<lparr>live := remove1 p (live w)\<rparr>)
      else Inl (InvalidDelete, w))"

section \<open>EList\_m128i\<close>

text \<open>
  \<open>list\<close> is the pointer \<open>list_\<close>: \<open>None\<close> is \<open>NULL\<close>, \<open>Some (p, vs)\<close> is the
  address \<open>p\<close> together with the vectors \<open>vs\<close> stored from \<open>p\<close> on in the block the
  list owns.
\<close>

record EList_m128i =
  cat :: c_int
  list :: "(size_t \<times> m128i list) option"
  sz :: size_t
  cur :: size_t

definition EList_m128i_new :: "c_int \<Rightarrow> error + EList_m128i" where
  "EList_m128i_new c =
     (if \<not> (0 \<le>s c) then Inl AssertionFailed
      else Inr \<lparr>cat = c, list = None, sz = 0, cur = 0\<rparr>)"

definition size_EList :: "EList_m128i \<Rightarrow> size_t" where
  "size_EList l = cur l"

definition capacity :: "EList_m128i \<Rightarrow> size_t" where
  "capacity l = sz l"

definition empty_EList :: "EList_m128i \<Rightarrow> bool" where
  "empty_EList l = (cur l = 0)"

definition null_EList :: "EList_m128i \<Rightarrow> bool" where
  "null_EList l = (list l = None)"

definition ptr :: "EList_m128i \<Rightarrow> size_t" where
  "ptr l = (case list l of None \<Rightarrow> 0 | Some (p, vs) \<Rightarrow> p)"

text \<open>\<open>operator[]\<close> and \<open>get\<close>: the assertion \<open>i < cur_\<close>, then the read of \<open>list_[i]\<close>.\<close>

definition get :: "EList_m128i \<Rightarrow> size_t \<Rightarrow> error + m128i" where
  "get l i =
     (if \<not> i < cur l then Inl AssertionFailed
      else (case list l of
              None \<Rightarrow> Inl NullPointer
            | Some (p, vs) \<Rightarrow> if unat i < length vs then Inr (vs ! unat i) else Inl OutOfBounds))"

text \<open>
  \<open>alloc(sz)\<close> asks for \<open>sz + 2\<close> vectors (the sum is a \<open>size_t\<close> and wraps), rounds the
  address up to a multiple of 16 and tallies. \<open>~0xf\<close> is an \<open>int\<close>, converted to
  \<open>size_t\<close> with sign extension. From the rounded address on, the block holds the
  requested number of vectors less two.
\<close>

definition alloc ::
  "c_int \<Rightarrow> size_t \<Rightarrow> world \<Rightarrow> (error \<times> world) + ((size_t \<times> m128i list) \<times> world)" where
  "alloc c n w =
     (case operator_new (n + 2) w of
        Inl e \<Rightarrow> Inl e
      | Inr ((tmp, init), w1) \<Rightarrow>
          let tmpint = (if tmp AND 0xf \<noteq> 0
                        then (tmp + 15) AND scast (NOT (0xf :: c_int))
                        else tmp)
          in if tmpint AND 0xf \<noteq> 0 then Inl (AssertionFailed, w1)
             else if tmpint = 0 then Inl (AssertionFailed, w1)
             else Inr ((tmpint, map init [0..<unat (n + 2) - 2]),
                       w1\<lparr>gMemTally := gMemTally w1 @ [TallyAdd c n]\<rparr>))"


type_synonym elist_state = "EList_m128i \<times> world"

type_synonym elist_result = "(error \<times> elist_state) + elist_state"

definition lazyInit :: "elist_state \<Rightarrow> elist_result" where
  "lazyInit s =
     (case s of (l, w) \<Rightarrow>
        if list l \<noteq> None then Inl (AssertionFailed, (l, w))
        else (case alloc (cat l) (sz l) w of
                Inl (e, w1) \<Rightarrow> Inl (e, (l, w1))
              | Inr (blk, w1) \<Rightarrow> Inr (l\<lparr>list := Some blk\<rparr>, w1)))"

text \<open>
  \<open>lazyInitExact(sz)\<close> stores \<open>sz_ = sz\<close> before it calls \<open>alloc\<close>: when \<open>alloc\<close> throws,
  the list is left with \<open>list_ == NULL\<close> and capacity \<open>sz\<close>.
\<close>

definition lazyInitExact :: "size_t \<Rightarrow> elist_state \<Rightarrow> elist_result" where
  "lazyInitExact n s =
     (case s of (l, w) \<Rightarrow>
        if \<not> n > 0 then Inl (AssertionFailed, (l, w))
        else if list l \<noteq> None then Inl (AssertionFailed, (l, w))
        else (let l1 = l\<lparr>sz := n\<rparr>
              in (case alloc (cat l1) n w of
                    Inl (e, w1) \<Rightarrow> Inl (e, (l1, w1))
                  | Inr (blk, w1) \<Rightarrow> Inr (l1\<lparr>list := Some blk\<rparr>, w1))))"

text \<open>
  \<open>free()\<close>: \<open>delete[] list_\<close>, the tally, and the three members reset. \<open>list_\<close> is the
  address \<open>alloc\<close> rounded up, so \<open>delete[]\<close> is given the base address of the block
  only when that base was a multiple of 16.
\<close>

definition free :: "elist_state \<Rightarrow> elist_result" where
  "free s =
     (case s of (l, w) \<Rightarrow>
        (case list l of
           None \<Rightarrow> Inr (l, w)
         | Some (p, vs) \<Rightarrow>
             (case operator_delete p w of
                Inl (e, w1) \<Rightarrow> Inl (e, (l, w1))
              | Inr w1 \<Rightarrow>
                  Inr (l\<lparr>list := None, sz := 0, cur := 0\<rparr>,
                       w1\<lparr>gMemTally := gMemTally w1 @ [TallyDel (cat l) (sz l)]\<rparr>))))"

text \<open>
  The copy loop of \<open>expandCopyExact\<close>: \<open>tmp[i] = list_[i]\<close> for \<open>i\<close> below \<open>cur_\<close>.
  Neither array checks its index.
\<close>

function copy_loop :: "m128i list \<Rightarrow> m128i list \<Rightarrow> nat \<Rightarrow> nat \<Rightarrow> error + m128i list" where
  "copy_loop tmp old i n =
     (if i < n then
        (if i < length old \<and> i < length tmp
         then copy_loop (tmp[i := old ! i]) old (i + 1) n
         else Inl OutOfBounds)
      else Inr tmp)"
  by pat_completeness auto
termination
  by (relation "measure (\<lambda>(tmp, old, i, n). n - i)") auto

declare copy_loop.simps [simp del]

definition expandCopyExact :: "size_t \<Rightarrow> elist_state \<Rightarrow> elist_result" where
  "expandCopyExact newsz s =
     (case s of (l, w) \<Rightarrow>
        if newsz \<le> sz l then Inr (l, w)
        else (case alloc (cat l) newsz w of
                Inl (e, w1) \<Rightarrow> Inl (e, (l, w1))
              | Inr ((p, tmp), w1) \<Rightarrow>
                  if p = 0 then Inl (AssertionFailed, (l, w1))
                  else
                  (let c = cur l in
                   (case list l of
                      None \<Rightarrow> Inr (l\<lparr>list := Some (p, tmp), sz := newsz, cur := c\<rparr>, w1)
                    | Some (q, old) \<Rightarrow>
                        (case copy_loop tmp old 0 (unat (cur l)) of
                           Inl e \<Rightarrow> Inl (e, (l, w1))
                         | Inr tmp1 \<Rightarrow>
                             (case free (l, w1) of
                                Inl es \<Rightarrow> Inl es
                              | Inr (l1, w2) \<Rightarrow>
                                  Inr (l1\<lparr>list := Some (p, tmp1), sz := newsz, cur := c\<rparr>,
                                       w2)))))))"

text \<open>
  The loop of \<open>expandCopy\<close>, \<open>while(newsz < thresh) newsz *= 2\<close>, on 64-bit values: the
  product wraps, and once \<open>newsz\<close> is 0 the loop never ends. Not returning is \<open>None\<close>.
\<close>

partial_function (option) expandCopy_loop :: "size_t \<Rightarrow> size_t \<Rightarrow> size_t option" where
  "expandCopy_loop newsz thresh =
     (if newsz < thresh then expandCopy_loop (newsz * 2) thresh else Some newsz)"

definition expandCopy :: "size_t \<Rightarrow> elist_state \<Rightarrow> elist_result option" where
  "expandCopy thresh s =
     (case s of (l, w) \<Rightarrow>
        if thresh \<le> sz l then Some (Inr (l, w))
        else (case expandCopy_loop (sz l * 2 + 1) thresh of
                None \<Rightarrow> None
              | Some newsz \<Rightarrow> Some (expandCopyExact newsz (l, w))))"

definition ensure :: "size_t \<Rightarrow> elist_state \<Rightarrow> elist_result option" where
  "ensure thresh s =
     (case (if list (fst s) = None then lazyInit s else Inr s) of
        Inl es \<Rightarrow> Some (Inl es)
      | Inr (l, w) \<Rightarrow> expandCopy (cur l + thresh) (l, w))"

definition reserveExact :: "size_t \<Rightarrow> elist_state \<Rightarrow> elist_result" where
  "reserveExact newsz s =
     (case (if list (fst s) = None then lazyInitExact newsz s else Inr s) of
        Inl es \<Rightarrow> Inl es
      | Inr s1 \<Rightarrow> expandCopyExact newsz s1)"

definition resize :: "size_t \<Rightarrow> elist_state \<Rightarrow> elist_result option" where
  "resize n s =
     (case (if n > 0 \<and> list (fst s) = None then lazyInit s else Inr s) of
        Inl es \<Rightarrow> Some (Inl es)
      | Inr (l, w) \<Rightarrow>
          if n \<le> cur l then Some (Inr (l\<lparr>cur := n\<rparr>, w))
          else (case (if sz l < n then expandCopy n (l, w) else Some (Inr (l, w))) of
                  None \<Rightarrow> None
                | Some (Inl es) \<Rightarrow> Some (Inl es)
                | Some (Inr (l1, w1)) \<Rightarrow> Some (Inr (l1\<lparr>cur := n\<rparr>, w1))))"

definition resizeExact :: "size_t \<Rightarrow> elist_state \<Rightarrow> elist_result" where
  "resizeExact n s =
     (case (if n > 0 \<and> list (fst s) = None then lazyInitExact n s else Inr s) of
        Inl es \<Rightarrow> Inl es
      | Inr (l, w) \<Rightarrow>
          if n \<le> cur l then Inr (l\<lparr>cur := n\<rparr>, w)
          else (case (if sz l < n then expandCopyExact n (l, w) else Inr (l, w)) of
                  Inl es \<Rightarrow> Inl es
                | Inr (l1, w1) \<Rightarrow> Inr (l1\<lparr>cur := n\<rparr>, w1)))"


text \<open>
  The states the constructor and the operations produce when no allocation has thrown:
  a null list has capacity and size 0; otherwise the pointer is a non-null multiple of
  16, the block holds \<open>sz_\<close> vectors and the size is at most the capacity.
\<close>

definition wf_EList :: "EList_m128i \<Rightarrow> bool" where
  "wf_EList l =
     (case list l of
        None \<Rightarrow> sz l = 0 \<and> cur l = 0
      | Some (p, vs) \<Rightarrow> p \<noteq> 0 \<and> p AND 0xf = 0 \<and> length vs = unat (sz l) \<and> cur l \<le> sz l)"

text \<open>The elements of the list: the first \<open>size()\<close> vectors of the block.\<close>

definition elements :: "EList_m128i \<Rightarrow> m128i list" where
  "elements l = (case list l of None \<Rightarrow> [] | Some (p, vs) \<Rightarrow> take (unat (cur l)) vs)"

text \<open>Every vector the block holds, also beyond \<open>size()\<close>.\<close>

definition storage :: "EList_m128i \<Rightarrow> m128i list" where
  "storage l = (case list l of None \<Rightarrow> [] | Some (p, vs) \<Rightarrow> vs)"

subsection \<open>The capacity policy as the specification words it\<close>




subsection \<open>What growing asks of the environment\<close>




section \<open>SSEMatrix\<close>

text \<open>
  \<open>masks\<close> is an \<open>EList<uint16_t>\<close> of the header \<open>ds.h\<close>, which is not in the source
  file: it is modelled by the 16-bit words it holds, and an index beyond them is the
  error \<open>OutOfBounds\<close>.
\<close>

record SSEMatrix =
  inited :: bool
  nrow :: size_t
  ncol :: size_t
  nvecrow :: size_t
  nveccol :: size_t
  wperv :: size_t
  vecshift :: size_t
  nvecPerCol :: size_t
  nvecPerCell :: size_t
  colstride :: size_t
  rowstride :: size_t
  buf :: EList_m128i
  masks :: "uint16_t list"

record SSEData =
  qprof :: size_t
  qprofStride :: size_t
  gbarStride :: size_t
  mat :: SSEMatrix
  maxPen :: size_t
  maxBonus :: size_t
  lastIter :: size_t
  lastWord :: size_t
  bias :: c_int

definition E :: size_t where "E = 0"
definition F :: size_t where "F = 1"
definition H :: size_t where "H = 2"
definition TMP :: size_t where "TMP = 3"

subsection \<open>Scalar reads of the striped vectors\<close>

text \<open>
  Memory is little-endian: byte \<open>k\<close> of a vector holds bits \<open>8k\<close> to \<open>8k + 7\<close> of it.
  \<open>byte_at vs off\<close> is the byte at offset \<open>off\<close> from the buffer's pointer.
\<close>

definition byte_at :: "m128i list \<Rightarrow> nat \<Rightarrow> 8 word" where
  "byte_at vs off = ucast (drop_bit (8 * (off mod 16)) (vs ! (off div 16)))"

text \<open>
  \<open>((uint8_t*)(buf_.ptr() + eltvec))[rowelt]\<close> and
  \<open>((int16_t*)(buf_.ptr() + eltvec))[rowelt]\<close>, converted to \<open>int\<close>.
\<close>

definition load_u8 :: "EList_m128i \<Rightarrow> size_t \<Rightarrow> size_t \<Rightarrow> error + int" where
  "load_u8 l eltvec rowelt =
     (case list l of
        None \<Rightarrow> Inl NullPointer
      | Some (p, vs) \<Rightarrow>
          (let off = 16 * unat eltvec + unat rowelt
           in if off < 16 * length vs then Inr (uint (byte_at vs off)) else Inl OutOfBounds))"

definition load_i16 :: "EList_m128i \<Rightarrow> size_t \<Rightarrow> size_t \<Rightarrow> error + int" where
  "load_i16 l eltvec rowelt =
     (case list l of
        None \<Rightarrow> Inl NullPointer
      | Some (p, vs) \<Rightarrow>
          (let off = 16 * unat eltvec + 2 * unat rowelt
           in if off + 1 < 16 * length vs
              then Inr (sint (word_cat (byte_at vs (off + 1)) (byte_at vs off) :: 16 word))
              else Inl OutOfBounds))"

definition elt :: "SSEMatrix \<Rightarrow> size_t \<Rightarrow> size_t \<Rightarrow> size_t \<Rightarrow> error + int" where
  "elt m row column mtx =
     (if \<not> inited m then Inl AssertionFailed
      else if \<not> row < nrow m then Inl AssertionFailed
      else if \<not> column < ncol m then Inl AssertionFailed
      else if \<not> mtx < 3 then Inl AssertionFailed
      else if nvecrow m = 0 then Inl DivisionByZero
      else
        (let rowelt = row div nvecrow m;
             rowvec = row mod nvecrow m;
             eltvec = (column * colstride m) + (rowvec * rowstride m) + mtx
         in if \<not> eltvec < size_EList (buf m) then Inl AssertionFailed
            else if wperv m = 16 then load_u8 (buf m) eltvec rowelt
            else if wperv m \<noteq> 8 then Inl AssertionFailed
            else load_i16 (buf m) eltvec rowelt))"

definition eelt :: "SSEMatrix \<Rightarrow> size_t \<Rightarrow> size_t \<Rightarrow> error + int" where
  "eelt m row column = elt m row column E"

definition felt :: "SSEMatrix \<Rightarrow> size_t \<Rightarrow> size_t \<Rightarrow> error + int" where
  "felt m row column = elt m row column F"

definition helt :: "SSEMatrix \<Rightarrow> size_t \<Rightarrow> size_t \<Rightarrow> error + int" where
  "helt m row column = elt m row column H"

text \<open>Lane \<open>j\<close> of a vector, as 16 unsigned bytes and as 8 signed 16-bit words.\<close>

definition lane_u8 :: "m128i \<Rightarrow> nat \<Rightarrow> int" where
  "lane_u8 v j = uint (ucast (drop_bit (8 * j) v) :: 8 word)"

definition lane_i16 :: "m128i \<Rightarrow> nat \<Rightarrow> int" where
  "lane_i16 v j = sint (ucast (drop_bit (16 * j) v) :: 16 word)"

text \<open>
  Modelled from the spec: \<open>SSEMatrix::init\<close> is declared in the source file and defined
  elsewhere. An initialized matrix is one laid out as the specification's data model
  says: \<open>wperv\<close> is 8 or 16, \<open>nvecrow = segLen = ceil(nrow / wperv)\<close>, the stride between
  vector rows is 4 and between columns \<open>4 * segLen\<close>, the buffer holds
  \<open>4 * segLen * (ncol + 1)\<close> vectors and the mask grid \<open>nrow * ncol\<close> words.
\<close>

definition initialized :: "SSEMatrix \<Rightarrow> bool" where
  "initialized m =
     (inited m \<and> (wperv m = 8 \<or> wperv m = 16) \<and>
      unat (nvecrow m) = (unat (nrow m) + unat (wperv m) - 1) div unat (wperv m) \<and>
      rowstride m = 4 \<and>
      unat (colstride m) = 4 * unat (nvecrow m) \<and>
      unat (size_EList (buf m)) = 4 * unat (nvecrow m) * (unat (ncol m) + 1) \<and>
      wf_EList (buf m) \<and>
      length (masks m) = unat (nrow m) * unat (ncol m))"

subsection \<open>The mask grid\<close>

text \<open>
  The word of cell \<open>(row, col)\<close> is \<open>masks_[row * ncol_ + col]\<close>, the index computed in
  \<open>size_t\<close> (the parameters \<open>col\<close>, \<open>mat\<close> and \<open>mask\<close> of the source are \<open>column\<close>, \<open>mtx\<close> and
  \<open>msk\<close> here, their names being taken). In \<open>masks_[i] &= c\<close> and \<open>masks_[i] |= c\<close> the word is promoted to \<open>int\<close>,
  combined with the \<open>int\<close> constant and truncated to 16 bits.
\<close>

definition mask_index :: "SSEMatrix \<Rightarrow> size_t \<Rightarrow> size_t \<Rightarrow> nat" where
  "mask_index m row column = unat (row * ncol m + column)"

definition mask_and :: "uint16_t \<Rightarrow> c_int \<Rightarrow> uint16_t" where
  "mask_and w c = ucast ((ucast w :: c_int) AND c)"

definition mask_or :: "uint16_t \<Rightarrow> c_int \<Rightarrow> uint16_t" where
  "mask_or w c = ucast ((ucast w :: c_int) OR c)"

definition mask_test :: "SSEMatrix \<Rightarrow> size_t \<Rightarrow> size_t \<Rightarrow> nat \<Rightarrow> error + bool" where
  "mask_test m row column b =
     (let i = mask_index m row column
      in if i < length (masks m)
         then Inr ((ucast (masks m ! i) :: c_int) AND push_bit b 1 \<noteq> 0)
         else Inl OutOfBounds)"

definition reportedThrough :: "SSEMatrix \<Rightarrow> size_t \<Rightarrow> size_t \<Rightarrow> error + bool" where
  "reportedThrough m row column = mask_test m row column 0"

definition isHMaskSet :: "SSEMatrix \<Rightarrow> size_t \<Rightarrow> size_t \<Rightarrow> error + bool" where
  "isHMaskSet m row column = mask_test m row column 1"

definition isEMaskSet :: "SSEMatrix \<Rightarrow> size_t \<Rightarrow> size_t \<Rightarrow> error + bool" where
  "isEMaskSet m row column = mask_test m row column 7"

definition isFMaskSet :: "SSEMatrix \<Rightarrow> size_t \<Rightarrow> size_t \<Rightarrow> error + bool" where
  "isFMaskSet m row column = mask_test m row column 10"

definition setReportedThrough :: "SSEMatrix \<Rightarrow> size_t \<Rightarrow> size_t \<Rightarrow> error + SSEMatrix" where
  "setReportedThrough m row column =
     (let i = mask_index m row column
      in if i < length (masks m)
         then Inr (m\<lparr>masks := (masks m)[i := mask_or (masks m ! i) (push_bit 0 1)]\<rparr>)
         else Inl OutOfBounds)"

definition hMaskSet :: "SSEMatrix \<Rightarrow> size_t \<Rightarrow> size_t \<Rightarrow> c_int \<Rightarrow> error + SSEMatrix" where
  "hMaskSet m row column msk =
     (if \<not> msk <s 32 then Inl AssertionFailed
      else
        (let i = mask_index m row column
         in if i < length (masks m)
            then
              (let ms = (masks m)[i := mask_and (masks m ! i) (NOT (push_bit 1 31))];
                   ms = ms[i := mask_or (ms ! i) (push_bit 1 1 OR push_bit 2 msk)]
               in Inr (m\<lparr>masks := ms\<rparr>))
            else Inl OutOfBounds))"

definition eMaskSet :: "SSEMatrix \<Rightarrow> size_t \<Rightarrow> size_t \<Rightarrow> c_int \<Rightarrow> error + SSEMatrix" where
  "eMaskSet m row column msk =
     (if \<not> msk <s 4 then Inl AssertionFailed
      else
        (let i = mask_index m row column
         in if i < length (masks m)
            then
              (let ms = (masks m)[i := mask_and (masks m ! i) (NOT (push_bit 7 7))];
                   ms = ms[i := mask_or (ms ! i) (push_bit 7 1 OR push_bit 8 msk)]
               in Inr (m\<lparr>masks := ms\<rparr>))
            else Inl OutOfBounds))"

definition fMaskSet :: "SSEMatrix \<Rightarrow> size_t \<Rightarrow> size_t \<Rightarrow> c_int \<Rightarrow> error + SSEMatrix" where
  "fMaskSet m row column msk =
     (if \<not> msk <s 4 then Inl AssertionFailed
      else
        (let i = mask_index m row column
         in if i < length (masks m)
            then
              (let ms = (masks m)[i := mask_and (masks m ! i) (NOT (push_bit 10 7))];
                   ms = ms[i := mask_or (ms ! i) (push_bit 10 1 OR push_bit 11 msk)]
               in Inr (m\<lparr>masks := ms\<rparr>))
            else Inl OutOfBounds))"

text \<open>The fields of a mask word, read as the specification's bit layout names them.\<close>

definition hMask_field :: "uint16_t \<Rightarrow> uint16_t" where
  "hMask_field w = drop_bit 2 w AND 31"

definition eMask_field :: "uint16_t \<Rightarrow> uint16_t" where
  "eMask_field w = drop_bit 8 w AND 3"

definition fMask_field :: "uint16_t \<Rightarrow> uint16_t" where
  "fMask_field w = drop_bit 11 w AND 3"

text \<open>A sequence of calls to the four mutators, stopped by the first error.\<close>

datatype mask_call =
  SetReportedThrough size_t size_t
| HMaskSet size_t size_t c_int
| EMaskSet size_t size_t c_int
| FMaskSet size_t size_t c_int

fun run_call :: "SSEMatrix \<Rightarrow> mask_call \<Rightarrow> error + SSEMatrix" where
  "run_call m (SetReportedThrough row column) = setReportedThrough m row column"
| "run_call m (HMaskSet row column msk) = hMaskSet m row column msk"
| "run_call m (EMaskSet row column msk) = eMaskSet m row column msk"
| "run_call m (FMaskSet row column msk) = fMaskSet m row column msk"

fun run_calls :: "SSEMatrix \<Rightarrow> mask_call list \<Rightarrow> error + SSEMatrix" where
  "run_calls m [] = Inr m"
| "run_calls m (c # cs) =
     (case run_call m c of Inl e \<Rightarrow> Inl e | Inr m1 \<Rightarrow> run_calls m1 cs)"

text \<open>
  A call the source admits on a matrix: its cell lies in the mask grid and its mask
  passes the assertion of the mutator.
\<close>

fun call_ok :: "SSEMatrix \<Rightarrow> mask_call \<Rightarrow> bool" where
  "call_ok m (SetReportedThrough row column) = (mask_index m row column < length (masks m))"
| "call_ok m (HMaskSet row column msk) = (mask_index m row column < length (masks m) \<and> msk <s 32)"
| "call_ok m (EMaskSet row column msk) = (mask_index m row column < length (masks m) \<and> msk <s 4)"
| "call_ok m (FMaskSet row column msk) = (mask_index m row column < length (masks m) \<and> msk <s 4)"

text \<open>
  The bits of a mask word that record that something was set: bit 0
  (\<open>reportedThrough\<close>), bit 1 (\<open>hMaskSet\<close>), bit 7 (\<open>eMaskSet\<close>) and bit 10 (\<open>fMaskSet\<close>).
\<close>

definition sticky :: "nat \<Rightarrow> bool" where
  "sticky b = (b = 0 \<or> b = 1 \<or> b = 7 \<or> b = 10)"

subsection \<open>Example values\<close>

text \<open>
  A matrix of one cell in 8-bit mode (\<open>wperv = 16\<close>), its mask word zero as after
  \<open>initMasks\<close>; lane 0 of its H vector holds 10. The data of an alignment problem around
  it, with bias 8.
\<close>

definition example_matrix :: SSEMatrix where
  "example_matrix =
     \<lparr>inited = True, nrow = 1, ncol = 1, nvecrow = 1, nveccol = 1, wperv = 16, vecshift = 4,
      nvecPerCol = 1, nvecPerCell = 4, colstride = 4, rowstride = 4,
      buf = \<lparr>cat = 0, list = Some (0x1000, [0, 0, 10, 0, 0, 0, 0, 0]), sz = 8, cur = 8\<rparr>,
      masks = [0]\<rparr>"

definition example_data :: SSEData where
  "example_data =
     \<lparr>qprof = 0x5000, qprofStride = 1, gbarStride = 1, mat = example_matrix,
      maxPen = 6, maxBonus = 2, lastIter = 0, lastWord = 0, bias = 8\<rparr>"

text \<open>
  A matrix of 10 rows and 2 columns in 16-bit mode (\<open>wperv = 8\<close>, so \<open>segLen = 2\<close>). The H
  vector of vector row 1 in column 1 is vector 14; its lane 0 holds 5 and its lane 1
  holds \<open>0xFFFE\<close>, which is -2.
\<close>

definition example_matrix16 :: SSEMatrix where
  "example_matrix16 =
     \<lparr>inited = True, nrow = 10, ncol = 2, nvecrow = 2, nveccol = 2, wperv = 8, vecshift = 3,
      nvecPerCol = 2, nvecPerCell = 4, colstride = 8, rowstride = 4,
      buf = \<lparr>cat = 0, list = Some (0x1000, replicate 14 0 @ [0xFFFE0005] @ replicate 9 0),
             sz = 24, cur = 24\<rparr>,
      masks = replicate 20 0\<rparr>"

text \<open>
  A list of capacity 3 holding two elements, whose block at \<open>0x1000\<close> is live, and an
  allocator whose next two blocks start at \<open>0x2008\<close> (not a multiple of 16) and
  \<open>0x3000\<close> and are zero-filled.
\<close>

definition example_list :: EList_m128i where
  "example_list = \<lparr>cat = 0, list = Some (0x1000, [11, 22, 33]), sz = 3, cur = 2\<rparr>"

definition example_world :: world where
  "example_world =
     \<lparr>new_results = [Some (0x2008, \<lambda>i. 0), Some (0x3000, \<lambda>i. 0)], live = [0x1000],
      gMemTally = []\<rparr>"





text \<open>
  Two metrics values over whose mutex no guard has been constructed, and a store that
  holds the first at address 0 and the second at every other address.
\<close>

definition example_metrics :: SSEMetrics where
  "example_metrics =
     \<lparr>dp = 3, dpsat = 1, dpfail = 1, dpsucc = 2, col = 40, cell = 400, inner = 50, fixup = 7,
      gathcell = 12, gathsol = 4, bt = 2, btfail = 0, btsucc = 2, btcell = 30, corerej = 0,
      nrej = 0, lock = []\<rparr>"

definition example_metrics_other :: SSEMetrics where
  "example_metrics_other =
     \<lparr>dp = 0xFFFFFFFFFFFFFFFF, dpsat = 0, dpfail = 0, dpsucc = 1, col = 10, cell = 100,
      inner = 20, fixup = 1, gathcell = 5, gathsol = 1, bt = 1, btfail = 0, btsucc = 1,
      btcell = 9, corerej = 0, nrej = 0, lock = []\<rparr>"

definition example_store :: metrics_store where
  "example_store = (\<lambda>a. if a = 0 then example_metrics else example_metrics_other)"


definition example_config :: SamConfig where
  "example_config =
     \<lparr>truncQname = True, omitsec = False, pg_id = ''bowtie2'', pg_pn = ''bowtie2'',
      pg_vn = ''2'', pg_cl = [], refnames = [], reflens = [],
      print_as = True, print_xs = True, print_xn = True, print_cs = False, print_cq = False,
      print_x0 = True, print_x1 = True, print_xm = True, print_xo = True, print_xg = True,
      print_nm = True, print_md = True, print_yf = True, print_ym = False, print_yp = False,
      print_yt = True, print_ys = True\<rparr>"

section \<open>Properties of printReadName\<close>

lemma printReadName_loop_takeWhile:
  "i \<le> namelen \<Longrightarrow> namelen \<le> length name \<Longrightarrow>
   printReadName_loop name i namelen out =
     out @ takeWhile (\<lambda>c. \<not> isspace c) (drop i (take namelen name))"
proof (induction name i namelen out rule: printReadName_loop.induct)
  case (1 name i namelen out)
  show ?case
  proof (cases "i < namelen")
    case False
    with "1.prems" have "i = namelen" by simp
    then show ?thesis by (simp add: printReadName_loop.simps [of name namelen])
  next
    case True
    with "1.prems" have il: "i < length (take namelen name)" by simp
    have d: "drop i (take namelen name) = name ! i # drop (i + 1) (take namelen name)"
      using Cons_nth_drop_Suc [OF il] True by simp
    show ?thesis
    proof (cases "isspace (name ! i)")
      case True
      with \<open>i < namelen\<close> d show ?thesis
        by (simp add: printReadName_loop.simps [of name i])
    next
      case False
      with \<open>i < namelen\<close> "1.IH" "1.prems" d show ?thesis
        by (simp add: printReadName_loop.simps [of name i])
    qed
  qed
qed

lemma has_mate_suffix_iff:
  "has_mate_suffix name \<longleftrightarrow>
     (length name \<ge> 2 \<and> name ! (length name - 2) = CHR ''/'' \<and>
      (name ! (length name - 1) = CHR ''1'' \<or> name ! (length name - 1) = CHR ''2''))"
proof (cases "length name \<ge> 2")
  case False
  then show ?thesis by (simp add: has_mate_suffix_def)
next
  case True
  define a where "a = name ! (length name - 2)"
  define b where "b = name ! (length name - 1)"
  have l2: "length (drop (length name - 2) name) = 2" using True by simp
  then obtain x y where xy: "drop (length name - 2) name = [x, y]"
    by (metis (no_types, opaque_lifting) One_nat_def Suc_1 length_0_conv length_Suc_conv)
  have "x = (drop (length name - 2) name) ! 0" using xy by simp
  also have "\<dots> = a" using True by (simp add: a_def)
  finally have xa: "x = a" .
  have "y = (drop (length name - 2) name) ! 1" using xy by simp
  also have "\<dots> = name ! (length name - 2 + 1)" using True by (subst nth_drop) simp_all
  also have "\<dots> = b" using True by (simp add: b_def Suc_diff_Suc numeral_2_eq_2)
  finally have yb: "y = b" .
  have "has_mate_suffix name \<longleftrightarrow> (a = CHR ''/'' \<and> (b = CHR ''1'' \<or> b = CHR ''2''))"
    using True by (auto simp: has_mate_suffix_def xy xa yb)
  then show ?thesis using True by (simp add: a_def b_def)
qed

text \<open>
  C10. For every read name, \<open>printReadName\<close> appends to the output exactly the longest
  whitespace-free prefix of the effective name (the name without a trailing \<open>/1\<close> or
  \<open>/2\<close>, capped at 255 characters when \<open>truncQname\<close> is set): output stops before the
  first whitespace character and nothing after it is written.
\<close>

theorem printReadName_spec:
  "printReadName cfg out name = out @ spec_read_name (truncQname cfg) name"
proof -
  define n1 where "n1 = (if has_mate_suffix name then length name - 2 else length name)"
  define n2 where "n2 = (if truncQname cfg \<and> n1 > 255 then 255 else n1)"
  have n1le: "n1 \<le> length name" by (simp add: n1_def)
  have n2le: "n2 \<le> length name" using n1le by (simp add: n2_def)
  have code: "printReadName cfg out name = printReadName_loop name 0 n2 out"
    unfolding printReadName_def Let_def n2_def n1_def has_mate_suffix_iff by simp
  have eff: "effective_name (truncQname cfg) name = take n2 name"
  proof -
    have s: "(if has_mate_suffix name then take (length name - 2) name else name) = take n1 name"
      by (simp add: n1_def)
    have "effective_name (truncQname cfg) name =
            (if truncQname cfg then take 255 (take n1 name) else take n1 name)"
      unfolding effective_name_def Let_def s ..
    also have "\<dots> = take n2 name"
      using n1le by (auto simp: n2_def min_def)
    finally show ?thesis .
  qed
  show ?thesis
    unfolding code spec_read_name_def eff
    using printReadName_loop_takeWhile [of 0 n2 name out] n2le by simp
qed

theorem printReadName_spec_witness:
  "printReadName example_config ''@'' ''read7 extra/1'' = ''@read7''"
  using printReadName_spec [of example_config "''@''" "''read7 extra/1''"]
  by (simp add: spec_read_name_def effective_name_def has_mate_suffix_def isspace_def
      example_config_def)

section \<open>Properties of SSEMetrics\<close>

lemma assign_add_other_object:
  "x \<noteq> this \<Longrightarrow> assign_add upd sel s this other x = s x"
  by (simp add: assign_add_def)

lemma accumulate_other_object:
  "x \<noteq> this \<Longrightarrow> accumulate s this other x = s x"
  unfolding accumulate_def Let_def by (simp add: assign_add_other_object)

lemma merge_other_object:
  "x \<noteq> this \<Longrightarrow> merge s this other g x = s x"
  by (simp add: merge_def Let_def accumulate_other_object)

lemma assign_add_distinct:
  "other \<noteq> this \<Longrightarrow>
   assign_add upd sel (s(this := r)) this other = s(this := upd (\<lambda>_. sel r + sel (s other)) r)"
  by (simp add: assign_add_def)

lemma assign_add_aliased:
  "assign_add upd sel (s(this := r)) this this = s(this := upd (\<lambda>_. sel r + sel r) r)"
  by (simp add: assign_add_def)

lemma store_self: "s = s(this := s this)"
  by simp

lemma accumulate_distinct:
  assumes "other \<noteq> this"
  shows "accumulate (s(this := r)) this other this =
           r\<lparr>dp := dp r + dp (s other), dpsat := dpsat r + dpsat (s other),
             dpfail := dpfail r + dpfail (s other), dpsucc := dpsucc r + dpsucc (s other),
             col := col r + col (s other), cell := cell r + cell (s other),
             inner := inner r + inner (s other), fixup := fixup r + fixup (s other),
             gathcell := gathcell r + gathcell (s other),
             gathsol := gathsol r + gathsol (s other),
             bt := bt r + bt (s other), btfail := btfail r + btfail (s other),
             btsucc := btsucc r + btsucc (s other), btcell := btcell r + btcell (s other),
             corerej := corerej r + corerej (s other), nrej := nrej r + nrej (s other)\<rparr>"
  unfolding accumulate_def Let_def using assms by (simp add: assign_add_distinct)

lemma accumulate_aliased:
  "accumulate (s(this := r)) this this this =
           r\<lparr>dp := dp r + dp r, dpsat := dpsat r + dpsat r,
             dpfail := dpfail r + dpfail r, dpsucc := dpsucc r + dpsucc r,
             col := col r + col r, cell := cell r + cell r,
             inner := inner r + inner r, fixup := fixup r + fixup r,
             gathcell := gathcell r + gathcell r, gathsol := gathsol r + gathsol r,
             bt := bt r + bt r, btfail := btfail r + btfail r,
             btsucc := btsucc r + btsucc r, btcell := btcell r + btcell r,
             corerej := corerej r + corerej r, nrej := nrej r + nrej r\<rparr>"
  unfolding accumulate_def Let_def by (simp add: assign_add_aliased)

text \<open>
  Whether or not the argument is the receiver, the receiver holds after the additions
  the sums of the counters the two objects held before them.
\<close>

lemma accumulate_sums:
  "accumulate (s(this := r)) this other this =
           r\<lparr>dp := dp r + dp ((s(this := r)) other),
             dpsat := dpsat r + dpsat ((s(this := r)) other),
             dpfail := dpfail r + dpfail ((s(this := r)) other),
             dpsucc := dpsucc r + dpsucc ((s(this := r)) other),
             col := col r + col ((s(this := r)) other),
             cell := cell r + cell ((s(this := r)) other),
             inner := inner r + inner ((s(this := r)) other),
             fixup := fixup r + fixup ((s(this := r)) other),
             gathcell := gathcell r + gathcell ((s(this := r)) other),
             gathsol := gathsol r + gathsol ((s(this := r)) other),
             bt := bt r + bt ((s(this := r)) other),
             btfail := btfail r + btfail ((s(this := r)) other),
             btsucc := btsucc r + btsucc ((s(this := r)) other),
             btcell := btcell r + btcell ((s(this := r)) other),
             corerej := corerej r + corerej ((s(this := r)) other),
             nrej := nrej r + nrej ((s(this := r)) other)\<rparr>"
proof (cases "other = this")
  case True
  then show ?thesis by (simp add: accumulate_aliased)
next
  case False
  then show ?thesis by (simp add: accumulate_distinct)
qed

lemma accumulate_lock: "lock (accumulate (s(this := r)) this other this) = lock r"
  by (simp add: accumulate_sums)

lemma merge_receiver:
  "merge s this other g this =
     (accumulate (s(this := (s this)\<lparr>lock := lock (s this) @ [Constructed g]\<rparr>)) this other this)
       \<lparr>lock := lock (s this) @ [Constructed g, Destroyed]\<rparr>"
  by (simp add: merge_def Let_def accumulate_lock)

text \<open>
  The guard of \<open>merge\<close> is constructed with the flag the caller gave, \<open>false\<close> in a call
  \<open>merge(other)\<close>, and destroyed when the call ends.
\<close>

lemma merge_guard:
  "lock (merge s this other g this) = lock (s this) @ [Constructed g, Destroyed] \<and>
   lock (merge_default s this other this) = lock (s this) @ [Constructed False, Destroyed]"
  by (simp add: merge_default_def merge_receiver accumulate_lock)

text \<open>
  C5. After \<open>m.merge(o)\<close> each of the sixteen counters of \<open>m\<close> is its value before the call
  plus the counter that \<open>o\<close> had before the call, in unsigned 64-bit arithmetic, whatever
  the lock flag. When \<open>o\<close> is an object other than \<open>m\<close>, \<open>o\<close> is unchanged, as is every
  other object of the store.
\<close>

theorem merge_adds_counters:
  "dp (merge s m other g m) = dp (s m) + dp (s other) \<and>
   dpsat (merge s m other g m) = dpsat (s m) + dpsat (s other) \<and>
   dpfail (merge s m other g m) = dpfail (s m) + dpfail (s other) \<and>
   dpsucc (merge s m other g m) = dpsucc (s m) + dpsucc (s other) \<and>
   col (merge s m other g m) = col (s m) + col (s other) \<and>
   cell (merge s m other g m) = cell (s m) + cell (s other) \<and>
   inner (merge s m other g m) = inner (s m) + inner (s other) \<and>
   fixup (merge s m other g m) = fixup (s m) + fixup (s other) \<and>
   gathcell (merge s m other g m) = gathcell (s m) + gathcell (s other) \<and>
   gathsol (merge s m other g m) = gathsol (s m) + gathsol (s other) \<and>
   bt (merge s m other g m) = bt (s m) + bt (s other) \<and>
   btfail (merge s m other g m) = btfail (s m) + btfail (s other) \<and>
   btsucc (merge s m other g m) = btsucc (s m) + btsucc (s other) \<and>
   btcell (merge s m other g m) = btcell (s m) + btcell (s other) \<and>
   corerej (merge s m other g m) = corerej (s m) + corerej (s other) \<and>
   nrej (merge s m other g m) = nrej (s m) + nrej (s other) \<and>
   (other \<noteq> m \<longrightarrow> merge s m other g other = s other) \<and>
   (\<forall>x. x \<noteq> m \<longrightarrow> merge s m other g x = s x)"
proof (cases "other = m")
  case True
  then show ?thesis by (simp add: merge_receiver accumulate_sums merge_other_object)
next
  case False
  then show ?thesis by (simp add: merge_receiver accumulate_sums merge_other_object)
qed

theorem merge_adds_counters_witness:
  "(1 :: nat) \<noteq> 0 \<and>
   dp (merge example_store 0 1 False 0) = 2 \<and>
   cell (merge example_store 0 1 False 0) = 500 \<and>
   merge example_store 0 1 False 1 = example_metrics_other \<and>
   merge example_store 0 1 False 2 = example_metrics_other"
  using merge_adds_counters [of example_store 0 1 False]
  by (simp add: example_store_def example_metrics_def example_metrics_other_def)

text \<open>
  The claim fails at \<open>m.merge(m)\<close>: \<open>o\<close> is then \<open>m\<close> itself, and each of its counters
  has doubled.
\<close>

theorem merge_aliased_doubles:
  "dp (example_store 0) = 3 \<and> dp (merge example_store 0 0 False 0) = 6 \<and>
   cell (example_store 0) = 400 \<and> cell (merge example_store 0 0 False 0) = 800 \<and>
   merge example_store 0 0 False 0 \<noteq> example_store 0"
proof -
  have a: "dp (merge example_store 0 0 False 0) = 6 \<and> cell (merge example_store 0 0 False 0) = 800"
    by (simp add: merge_receiver accumulate_sums example_store_def example_metrics_def)
  have b: "dp (example_store 0) = 3 \<and> cell (example_store 0) = 400"
    by (simp add: example_store_def example_metrics_def)
  from a b have "dp (merge example_store 0 0 False 0) \<noteq> dp (example_store 0)" by simp
  then have "merge example_store 0 0 False 0 \<noteq> example_store 0" by auto
  with a b show ?thesis by simp
qed

section \<open>Properties of the mask grid\<close>

lemma mask_or_bit: "bit (mask_or w c) n \<longleftrightarrow> n < 16 \<and> (bit w n \<or> bit c n)"
  by (auto simp: mask_or_def bit_simps)

lemma mask_and_bit: "bit (mask_and w c) n \<longleftrightarrow> n < 16 \<and> bit w n \<and> bit c n"
  by (auto simp: mask_and_def bit_simps)

lemma mask_test_iff:
  "mask_test m row column b = Inr True \<longleftrightarrow>
     mask_index m row column < length (masks m) \<and> b < 16 \<and> bit (masks m ! mask_index m row column) b"
proof -
  have "(ucast (w :: uint16_t) :: c_int) AND push_bit b 1 \<noteq> 0 \<longleftrightarrow> b < 16 \<and> bit w b" for w
  proof -
    have "(ucast w :: c_int) AND push_bit b 1 \<noteq> 0 \<longleftrightarrow> bit (ucast w :: c_int) b"
      by (simp add: bit_iff_and_push_bit_not_eq_0)
    also have "\<dots> \<longleftrightarrow> b < 16 \<and> bit w b"
      by (auto simp: bit_simps dest: bit_imp_le_length)
    finally show ?thesis .
  qed
  then show ?thesis by (simp add: mask_test_def Let_def)
qed

lemma hMaskSet_Inr:
  "hMaskSet m row column msk = Inr m' \<longleftrightarrow>
     msk <s 32 \<and> mask_index m row column < length (masks m) \<and>
     m' = m\<lparr>masks := (masks m)[mask_index m row column :=
            mask_or (mask_and (masks m ! mask_index m row column) (NOT (push_bit 1 31)))
                    (push_bit 1 1 OR push_bit 2 msk)]\<rparr>"
  by (auto simp: hMaskSet_def Let_def)

lemma eMaskSet_Inr:
  "eMaskSet m row column msk = Inr m' \<longleftrightarrow>
     msk <s 4 \<and> mask_index m row column < length (masks m) \<and>
     m' = m\<lparr>masks := (masks m)[mask_index m row column :=
            mask_or (mask_and (masks m ! mask_index m row column) (NOT (push_bit 7 7)))
                    (push_bit 7 1 OR push_bit 8 msk)]\<rparr>"
  by (auto simp: eMaskSet_def Let_def)

lemma fMaskSet_Inr:
  "fMaskSet m row column msk = Inr m' \<longleftrightarrow>
     msk <s 4 \<and> mask_index m row column < length (masks m) \<and>
     m' = m\<lparr>masks := (masks m)[mask_index m row column :=
            mask_or (mask_and (masks m ! mask_index m row column) (NOT (push_bit 10 7)))
                    (push_bit 10 1 OR push_bit 11 msk)]\<rparr>"
  by (auto simp: fMaskSet_def Let_def)

lemma setReportedThrough_Inr:
  "setReportedThrough m row column = Inr m' \<longleftrightarrow>
     mask_index m row column < length (masks m) \<and>
     m' = m\<lparr>masks := (masks m)[mask_index m row column :=
            mask_or (masks m ! mask_index m row column) (push_bit 0 1)]\<rparr>"
  by (auto simp: setReportedThrough_def Let_def)

lemma sticky_h: "sticky b \<Longrightarrow> bit w b \<Longrightarrow>
  bit (mask_or (mask_and w (NOT (push_bit 1 31))) (push_bit 1 1 OR push_bit 2 msk)) b"
  by (auto simp: sticky_def mask_or_bit mask_and_bit bit_simps)

lemma sticky_e: "sticky b \<Longrightarrow> bit w b \<Longrightarrow>
  bit (mask_or (mask_and w (NOT (push_bit 7 7))) (push_bit 7 1 OR push_bit 8 msk)) b"
  by (auto simp: sticky_def mask_or_bit mask_and_bit bit_simps)

lemma sticky_f: "sticky b \<Longrightarrow> bit w b \<Longrightarrow>
  bit (mask_or (mask_and w (NOT (push_bit 10 7))) (push_bit 10 1 OR push_bit 11 msk)) b"
  by (auto simp: sticky_def mask_or_bit mask_and_bit bit_simps)

lemma sticky_r: "sticky b \<Longrightarrow> bit w b \<Longrightarrow> bit (mask_or w 1) b"
  by (auto simp: sticky_def mask_or_bit)

lemma run_call_frame:
  assumes "run_call m c = Inr m'"
  shows "ncol m' = ncol m \<and> length (masks m') = length (masks m) \<and>
         (\<forall>i b. sticky b \<longrightarrow> i < length (masks m) \<longrightarrow> bit (masks m ! i) b \<longrightarrow> bit (masks m' ! i) b)"
proof (cases c)
  case (SetReportedThrough row column)
  with assms show ?thesis
    by (auto simp: setReportedThrough_Inr nth_list_update intro: sticky_r)
next
  case (HMaskSet row column msk)
  with assms show ?thesis
    by (auto simp: hMaskSet_Inr nth_list_update intro: sticky_h [simplified])
next
  case (EMaskSet row column msk)
  with assms show ?thesis
    by (auto simp: eMaskSet_Inr nth_list_update intro: sticky_e [simplified])
next
  case (FMaskSet row column msk)
  with assms show ?thesis
    by (auto simp: fMaskSet_Inr nth_list_update intro: sticky_f [simplified])
qed

lemma run_call_ok: "call_ok m c \<Longrightarrow> \<exists>m'. run_call m c = Inr m'"
  by (cases c) (simp_all add: setReportedThrough_Inr hMaskSet_Inr eMaskSet_Inr fMaskSet_Inr)

lemma call_ok_cong:
  "ncol m' = ncol m \<Longrightarrow> length (masks m') = length (masks m) \<Longrightarrow> call_ok m' c = call_ok m c"
  by (cases c) (simp_all add: mask_index_def)

lemma run_calls_frame:
  "run_calls m cs = Inr m' \<Longrightarrow>
     ncol m' = ncol m \<and> length (masks m') = length (masks m) \<and>
     (\<forall>i b. sticky b \<longrightarrow> i < length (masks m) \<longrightarrow> bit (masks m ! i) b \<longrightarrow> bit (masks m' ! i) b)"
proof (induction cs arbitrary: m)
  case Nil
  then show ?case by simp
next
  case (Cons c cs)
  then obtain m1 where m1: "run_call m c = Inr m1" and r: "run_calls m1 cs = Inr m'"
    by (auto split: sum.splits)
  from run_call_frame [OF m1] Cons.IH [OF r] show ?case by auto
qed

lemma run_calls_ok:
  "list_all (call_ok m) cs \<Longrightarrow> \<exists>m'. run_calls m cs = Inr m'"
proof (induction cs arbitrary: m)
  case Nil
  then show ?case by simp
next
  case (Cons c cs)
  from Cons.prems have "call_ok m c" by simp
  then obtain m1 where m1: "run_call m c = Inr m1" using run_call_ok by blast
  from run_call_frame [OF m1] have "call_ok m1 = call_ok m"
    by (intro ext call_ok_cong) simp_all
  with Cons.prems have "list_all (call_ok m1) cs" by simp
  from Cons.IH [OF this] m1 show ?case by simp
qed

lemma run_calls_append:
  "run_calls m (cs1 @ cs2) = (case run_calls m cs1 of Inl e \<Rightarrow> Inl e | Inr m1 \<Rightarrow> run_calls m1 cs2)"
  by (induction cs1 arbitrary: m) (auto split: sum.splits)

lemma mask_test_mono:
  assumes "run_calls m cs = Inr m'" "sticky b" "mask_test m row column b = Inr True"
  shows "mask_test m' row column b = Inr True"
  using run_calls_frame [OF assms(1)] assms(2,3)
  by (auto simp: mask_test_iff mask_index_def)

text \<open>
  C3. For every cell and every sequence of calls to \<open>setReportedThrough\<close>, \<open>hMaskSet\<close>,
  \<open>eMaskSet\<close> and \<open>fMaskSet\<close> on cells of the matrix, split anywhere into the calls made so
  far and the later calls: all calls return, and when \<open>reportedThrough\<close>, \<open>isHMaskSet\<close>,
  \<open>isEMaskSet\<close> or \<open>isFMaskSet\<close> is true for the cell after the first part it is true after
  the later calls too. No call clears bit 0, 1, 7 or 10 of any mask word of the grid.
\<close>

theorem mask_flags_monotone:
  assumes "list_all (call_ok m) (cs1 @ cs2)"
  shows "\<exists>m1 m2. run_calls m cs1 = Inr m1 \<and> run_calls m (cs1 @ cs2) = Inr m2 \<and>
           (reportedThrough m1 row column = Inr True \<longrightarrow> reportedThrough m2 row column = Inr True) \<and>
           (isHMaskSet m1 row column = Inr True \<longrightarrow> isHMaskSet m2 row column = Inr True) \<and>
           (isEMaskSet m1 row column = Inr True \<longrightarrow> isEMaskSet m2 row column = Inr True) \<and>
           (isFMaskSet m1 row column = Inr True \<longrightarrow> isFMaskSet m2 row column = Inr True) \<and>
           (\<forall>i b. sticky b \<longrightarrow> i < length (masks m1) \<longrightarrow> bit (masks m1 ! i) b \<longrightarrow>
                  bit (masks m2 ! i) b)"
proof -
  from run_calls_ok [OF assms] obtain m2 where m2: "run_calls m (cs1 @ cs2) = Inr m2" ..
  then obtain m1 where m1: "run_calls m cs1 = Inr m1" and r: "run_calls m1 cs2 = Inr m2"
    by (auto simp: run_calls_append split: sum.splits)
  have "mask_test m1 row column b = Inr True \<Longrightarrow> mask_test m2 row column b = Inr True"
    if "sticky b" for b
    using mask_test_mono [OF r that] .
  moreover have "\<forall>i b. sticky b \<longrightarrow> i < length (masks m1) \<longrightarrow> bit (masks m1 ! i) b \<longrightarrow>
                  bit (masks m2 ! i) b"
    using run_calls_frame [OF r] by blast
  ultimately show ?thesis using m1 m2
    by (simp add: reportedThrough_def isHMaskSet_def isEMaskSet_def isFMaskSet_def sticky_def)
qed

subsection \<open>The fields the mutators write\<close>

lemma c_int_bits_below:
  assumes "0 \<le> sint (msk::c_int)" "sint msk < 2 ^ n" "bit msk j"
  shows "j < n"
proof -
  define k where "k = sint msk"
  have k: "0 \<le> k" "k < 2 ^ n" using assms by (simp_all add: k_def)
  have m: "msk = word_of_int k" by (simp add: k_def)
  have "take_bit n k = k" using k by (simp add: take_bit_int_eq_self)
  then have "bit k j \<Longrightarrow> j < n" by (metis bit_take_bit_iff)
  then show ?thesis using assms(3) by (simp add: m bit_word_of_int_iff)
qed

lemma set_word_bit:
  "bit (mask_or (mask_and w (NOT (push_bit p (mask c)))) (push_bit p 1 OR push_bit q msk)) n
   \<longleftrightarrow> n < 16 \<and> ((bit w n \<and> \<not> (p \<le> n \<and> n < p + c)) \<or> n = p \<or> (q \<le> n \<and> bit msk (n - q)))"
  by (auto simp: mask_or_bit mask_and_bit bit_simps dest: bit_imp_le_length)

lemma bit_16_iff: "bit (16 :: int) n \<longleftrightarrow> n = 4"
  using bit_exp_iff [of 4 n, where ?'a = int] by simp

lemma hMaskSet_word:
  "mask_or (mask_and w (NOT (push_bit 1 31))) (push_bit 1 1 OR push_bit 2 msk) =
   mask_or (mask_and w (NOT (push_bit 1 (mask 5)))) (push_bit 1 1 OR push_bit 2 msk)"
  by (simp add: mask_eq_exp_minus_1)

lemma eMaskSet_word:
  "mask_or (mask_and w (NOT (push_bit 7 7))) (push_bit 7 1 OR push_bit 8 msk) =
   mask_or (mask_and w (NOT (push_bit 7 (mask 3)))) (push_bit 7 1 OR push_bit 8 msk)"
  by (simp add: mask_eq_exp_minus_1)

lemma fMaskSet_word:
  "mask_or (mask_and w (NOT (push_bit 10 7))) (push_bit 10 1 OR push_bit 11 msk) =
   mask_or (mask_and w (NOT (push_bit 10 (mask 3)))) (push_bit 10 1 OR push_bit 11 msk)"
  by (simp add: mask_eq_exp_minus_1)

lemma field_bit:
  "bit (drop_bit k (w::uint16_t) AND mask c) n \<longleftrightarrow> n < c \<and> bit w (k + n)"
  by (auto simp: bit_simps dest: bit_imp_le_length)

lemma hMask_field_alt: "hMask_field w = drop_bit 2 w AND mask 5"
  by (simp add: hMask_field_def mask_eq_exp_minus_1)
lemma eMask_field_alt: "eMask_field w = drop_bit 8 w AND mask 2"
  by (simp add: eMask_field_def mask_eq_exp_minus_1)
lemma fMask_field_alt: "fMask_field w = drop_bit 11 w AND mask 2"
  by (simp add: fMask_field_def mask_eq_exp_minus_1)

lemma eMask_word:
  assumes "0 \<le>s msk" "msk <s 4"
  shows "eMask_field (mask_or (mask_and w (NOT (push_bit 7 7))) (push_bit 7 1 OR push_bit 8 msk)) = ucast msk"
proof (rule bit_word_eqI)
  fix n assume "n < LENGTH(16)"
  have b: "bit msk j \<Longrightarrow> j < 2" for j
    using c_int_bits_below [of msk 2 j] assms by (simp add: word_sle_eq word_sless_alt)
  show "bit (eMask_field (mask_or (mask_and w (NOT (push_bit 7 7))) (push_bit 7 1 OR push_bit 8 msk))) n
        = bit (ucast msk :: uint16_t) n"
    unfolding eMask_field_alt eMaskSet_word field_bit set_word_bit
    using b [of n] by (auto simp: bit_simps)
qed

lemma fMask_word:
  assumes "0 \<le>s msk" "msk <s 4"
  shows "fMask_field (mask_or (mask_and w (NOT (push_bit 10 7))) (push_bit 10 1 OR push_bit 11 msk)) = ucast msk"
proof (rule bit_word_eqI)
  fix n assume "n < LENGTH(16)"
  have b: "bit msk j \<Longrightarrow> j < 2" for j
    using c_int_bits_below [of msk 2 j] assms by (simp add: word_sle_eq word_sless_alt)
  show "bit (fMask_field (mask_or (mask_and w (NOT (push_bit 10 7))) (push_bit 10 1 OR push_bit 11 msk))) n
        = bit (ucast msk :: uint16_t) n"
    unfolding fMask_field_alt fMaskSet_word field_bit set_word_bit
    using b [of n] by (auto simp: bit_simps)
qed

lemma hMask_word:
  assumes "0 \<le>s msk" "msk <s 32"
  shows "hMask_field (mask_or (mask_and w (NOT (push_bit 1 31))) (push_bit 1 1 OR push_bit 2 msk))
         = ucast msk OR (hMask_field w AND 16)"
proof (rule bit_word_eqI)
  fix n assume "n < LENGTH(16)"
  have b: "bit msk j \<Longrightarrow> j < 5" for j
    using c_int_bits_below [of msk 5 j] assms by (simp add: word_sle_eq word_sless_alt)
  show "bit (hMask_field (mask_or (mask_and w (NOT (push_bit 1 31))) (push_bit 1 1 OR push_bit 2 msk))) n
        = bit (ucast msk OR (hMask_field w AND 16) :: uint16_t) n"
    unfolding hMask_field_alt hMaskSet_word field_bit set_word_bit
    using b [of n] by (auto simp: bit_simps field_bit bit_16_iff)
qed

lemma flag_bits:
  "bit (mask_or (mask_and w (NOT (push_bit 1 31))) (push_bit 1 1 OR push_bit 2 msk)) 1"
  "bit (mask_or (mask_and w (NOT (push_bit 7 7))) (push_bit 7 1 OR push_bit 8 msk)) 7"
  "bit (mask_or (mask_and w (NOT (push_bit 10 7))) (push_bit 10 1 OR push_bit 11 msk)) 10"
  unfolding hMaskSet_word eMaskSet_word fMaskSet_word set_word_bit by simp_all

theorem mask_flags_monotone_witness:
  "list_all (call_ok example_matrix)
     ([SetReportedThrough 0 0, HMaskSet 0 0 3, EMaskSet 0 0 1, FMaskSet 0 0 2] @
      [HMaskSet 0 0 0, EMaskSet 0 0 0, FMaskSet 0 0 0]) \<and>
   (\<exists>m2. run_calls example_matrix
            ([SetReportedThrough 0 0, HMaskSet 0 0 3, EMaskSet 0 0 1, FMaskSet 0 0 2] @
             [HMaskSet 0 0 0, EMaskSet 0 0 0, FMaskSet 0 0 0]) = Inr m2 \<and>
         reportedThrough m2 0 0 = Inr True \<and> isHMaskSet m2 0 0 = Inr True \<and>
         isEMaskSet m2 0 0 = Inr True \<and> isFMaskSet m2 0 0 = Inr True)"
proof -
  let ?cs1 = "[SetReportedThrough 0 0, HMaskSet 0 0 3, EMaskSet 0 0 1, FMaskSet 0 0 2]"
  let ?cs2 = "[HMaskSet 0 0 0, EMaskSet 0 0 0, FMaskSet 0 0 0]"
  have ok: "list_all (call_ok example_matrix) (?cs1 @ ?cs2)"
    by (simp add: example_matrix_def mask_index_def word_sless_alt)
  have r1: "run_calls example_matrix ?cs1 = Inr (example_matrix\<lparr>masks := [0x158F]\<rparr>)"
    by (simp add: example_matrix_def setReportedThrough_def hMaskSet_def eMaskSet_def fMaskSet_def
        mask_index_def mask_and_def mask_or_def word_sless_alt)
  have q: "reportedThrough (example_matrix\<lparr>masks := [0x158F]\<rparr>) 0 0 = Inr True"
          "isHMaskSet (example_matrix\<lparr>masks := [0x158F]\<rparr>) 0 0 = Inr True"
          "isEMaskSet (example_matrix\<lparr>masks := [0x158F]\<rparr>) 0 0 = Inr True"
          "isFMaskSet (example_matrix\<lparr>masks := [0x158F]\<rparr>) 0 0 = Inr True"
    by (simp_all add: reportedThrough_def isHMaskSet_def isEMaskSet_def isFMaskSet_def
        mask_test_def mask_index_def example_matrix_def)
  from mask_flags_monotone [OF ok, of 0 0] r1 q ok show ?thesis by auto
qed

text \<open>
  C2. The claim fails for \<open>hMaskSet\<close>: \<open>~(31 << 1)\<close> clears bits 1 to 5 of the word and
  leaves bit 6, the top bit of the five-bit H mask at bits 2 to 6. On a zeroed cell,
  \<open>hMaskSet(0, 0, 16)\<close> followed by \<open>hMaskSet(0, 0, 0)\<close> leaves the word \<open>0x42\<close>: bit 1 is
  set, and bits 2 to 6 read 16 where the claim says 0. (\<open>eMaskSet\<close> and \<open>fMaskSet\<close> clear
  their whole field: \<open>eMaskSet_sets_field\<close>, \<open>fMaskSet_sets_field\<close>; what \<open>hMaskSet\<close>
  leaves is \<open>hMaskSet_sets_field\<close>.)
\<close>

theorem hMaskSet_stale_bit:
  "\<exists>m'. run_calls example_matrix [HMaskSet 0 0 16, HMaskSet 0 0 0] = Inr m' \<and>
        masks m' = [0x42] \<and> hMask_field (masks m' ! 0) = 16"
  by (simp add: example_matrix_def hMaskSet_def mask_index_def mask_and_def mask_or_def
      word_sless_alt hMask_field_def)


lemma eMaskSet_sets_field:
  assumes "eMaskSet m row column msk = Inr m'" "0 \<le>s msk"
  shows "isEMaskSet m' row column = Inr True \<and>
         eMask_field (masks m' ! mask_index m' row column) = ucast msk"
proof -
  from assms(1) have i: "mask_index m row column < length (masks m)" and lt: "msk <s 4"
    and m': "m' = m\<lparr>masks := (masks m)[mask_index m row column :=
            mask_or (mask_and (masks m ! mask_index m row column) (NOT (push_bit 7 7)))
                    (push_bit 7 1 OR push_bit 8 msk)]\<rparr>"
    by (simp_all add: eMaskSet_Inr)
  have ix: "mask_index m' row column = mask_index m row column"
    by (simp add: m' mask_index_def)
  show ?thesis
    unfolding isEMaskSet_def mask_test_iff ix
    using i flag_bits(2) [of "masks m ! mask_index m row column" msk, simplified]
      eMask_word [OF assms(2) lt, of "masks m ! mask_index m row column", simplified]
    by (simp add: m')
qed

lemma fMaskSet_sets_field:
  assumes "fMaskSet m row column msk = Inr m'" "0 \<le>s msk"
  shows "isFMaskSet m' row column = Inr True \<and>
         fMask_field (masks m' ! mask_index m' row column) = ucast msk"
proof -
  from assms(1) have i: "mask_index m row column < length (masks m)" and lt: "msk <s 4"
    and m': "m' = m\<lparr>masks := (masks m)[mask_index m row column :=
            mask_or (mask_and (masks m ! mask_index m row column) (NOT (push_bit 10 7)))
                    (push_bit 10 1 OR push_bit 11 msk)]\<rparr>"
    by (simp_all add: fMaskSet_Inr)
  have ix: "mask_index m' row column = mask_index m row column"
    by (simp add: m' mask_index_def)
  show ?thesis
    unfolding isFMaskSet_def mask_test_iff ix
    using i flag_bits(3) [of "masks m ! mask_index m row column" msk, simplified]
      fMask_word [OF assms(2) lt, of "masks m ! mask_index m row column", simplified]
    by (simp add: m')
qed

lemma hMaskSet_sets_field:
  assumes "hMaskSet m row column msk = Inr m'" "0 \<le>s msk"
  shows "isHMaskSet m' row column = Inr True \<and>
         hMask_field (masks m' ! mask_index m' row column) =
           ucast msk OR (hMask_field (masks m ! mask_index m row column) AND 16)"
proof -
  from assms(1) have i: "mask_index m row column < length (masks m)" and lt: "msk <s 32"
    and m': "m' = m\<lparr>masks := (masks m)[mask_index m row column :=
            mask_or (mask_and (masks m ! mask_index m row column) (NOT (push_bit 1 31)))
                    (push_bit 1 1 OR push_bit 2 msk)]\<rparr>"
    by (simp_all add: hMaskSet_Inr)
  have ix: "mask_index m' row column = mask_index m row column"
    by (simp add: m' mask_index_def)
  show ?thesis
    unfolding isHMaskSet_def mask_test_iff ix
    using i flag_bits(1) [of "masks m ! mask_index m row column" msk, simplified]
      hMask_word [OF assms(2) lt, of "masks m ! mask_index m row column", simplified]
    by (simp add: m')
qed

section \<open>Properties of EList\_m128i\<close>

subsection \<open>The address adjustment of alloc\<close>







lemma not_0xf_size_t: "(scast (NOT (0xf :: c_int)) :: size_t) = NOT 0xf"
  by simp









lemma alloc_throws:
  "new_results w = None # rest \<Longrightarrow> alloc c n w = Inl (BadAlloc, w\<lparr>new_results := rest\<rparr>)"
  by (simp add: alloc_def operator_new_def)


text \<open>
  \<open>delete[]\<close> on an address that is not the base of a live block: \<open>free\<close> has undefined
  behaviour.
\<close>

lemma free_not_live:
  assumes "list l = Some (p, vs)" "p \<notin> set (live w)"
  shows "free (l, w) = Inl (InvalidDelete, (l, w))"
  using assms by (simp add: free_def operator_delete_def)










text \<open>When \<open>operator new[]\<close> throws, \<open>expandCopyExact\<close> throws and the list is as before.\<close>

lemma expandCopyExact_throws:
  assumes "sz l < newsz" "new_results w = None # rest"
  shows "expandCopyExact newsz (l, w) = Inl (BadAlloc, (l, w\<lparr>new_results := rest\<rparr>))"
proof -
  have ns: "\<not> newsz \<le> sz l" using assms(1) by simp
  show ?thesis by (simp add: expandCopyExact_def ns alloc_throws [OF assms(2)])
qed

lemma set_cur_wf:
  assumes "wf_EList l" "list l \<noteq> None \<or> n = 0" "n \<le> sz l"
  shows "wf_EList (l\<lparr>cur := n\<rparr>)"
  using assms by (auto simp: wf_EList_def split: option.splits)



lemma resize_inited:
  assumes "list l \<noteq> None \<or> n = 0"
  shows "resize n (l, w) =
           (if n \<le> cur l then Some (Inr (l\<lparr>cur := n\<rparr>, w))
            else (case (if sz l < n then expandCopy n (l, w) else Some (Inr (l, w))) of
                    None \<Rightarrow> None
                  | Some (Inl e) \<Rightarrow> Some (Inl e)
                  | Some (Inr (l1, w1)) \<Rightarrow> Some (Inr (l1\<lparr>cur := n\<rparr>, w1))))"
proof -
  have h: "(if n > 0 \<and> list (fst (l, w)) = None then lazyInit (l, w) else Inr (l, w)) = Inr (l, w)"
    using assms by (auto simp: word_greater_zero_iff)
  show ?thesis
    by (subst resize_def, subst h) simp
qed

lemma resizeExact_inited:
  assumes "list l \<noteq> None \<or> n = 0"
  shows "resizeExact n (l, w) =
           (if n \<le> cur l then Inr (l\<lparr>cur := n\<rparr>, w)
            else (case (if sz l < n then expandCopyExact n (l, w) else Inr (l, w)) of
                    Inl e \<Rightarrow> Inl e
                  | Inr (l1, w1) \<Rightarrow> Inr (l1\<lparr>cur := n\<rparr>, w1)))"
proof -
  have h: "(if n > 0 \<and> list (fst (l, w)) = None then lazyInitExact n (l, w) else Inr (l, w)) = Inr (l, w)"
    using assms by (auto simp: word_greater_zero_iff)
  show ?thesis
    by (subst resizeExact_def, subst h) simp
qed














lemma example_list_wf: "wf_EList example_list"
  by (simp add: wf_EList_def example_list_def)













subsection \<open>Alignment, shrinking and clearing\<close>

lemma ptr_aligned: "wf_EList l \<Longrightarrow> ptr l AND 0xf = 0"
  by (auto simp: wf_EList_def ptr_def split: option.splits)

lemma new_wf: "EList_m128i_new c = Inr l \<Longrightarrow> wf_EList l"
  by (auto simp: EList_m128i_new_def wf_EList_def split: if_splits)



text \<open>
  C9. For a list of size \<open>s\<close> and \<open>n <= s\<close>, \<open>resize(n)\<close> and \<open>resizeExact(n)\<close> return the
  list with the size set to \<open>n\<close> and nothing else changed: the capacity, the pointer
  and the stored vectors are the same, the allocator and the memory tally are not
  called, and the elements are the first \<open>n\<close> of before. This covers \<open>n = 0\<close> on a list
  that was never initialized.
\<close>

theorem resize_shrinks:
  assumes "wf_EList l" and "n \<le> size_EList l"
  shows "resize n (l, w) = Some (Inr (l\<lparr>cur := n\<rparr>, w)) \<and>
         resizeExact n (l, w) = Inr (l\<lparr>cur := n\<rparr>, w) \<and>
         size_EList (l\<lparr>cur := n\<rparr>) = n \<and>
         capacity (l\<lparr>cur := n\<rparr>) = capacity l \<and>
         list (l\<lparr>cur := n\<rparr>) = list l \<and>
         elements (l\<lparr>cur := n\<rparr>) = take (unat n) (elements l) \<and>
         wf_EList (l\<lparr>cur := n\<rparr>)"
proof -
  have c: "n \<le> cur l" using assms(2) by (simp add: size_EList_def)
  have i: "list l \<noteq> None \<or> n = 0"
  proof (cases "list l")
    case None
    with assms(1) have "cur l = 0" by (simp add: wf_EList_def)
    with c show ?thesis by simp
  qed simp
  have cs: "cur l \<le> sz l" using assms(1) by (auto simp: wf_EList_def split: option.splits)
  have w: "wf_EList (l\<lparr>cur := n\<rparr>)" using set_cur_wf [OF assms(1) i] c cs by simp
  have un: "unat n \<le> unat (cur l)" using c by (simp add: word_le_nat_alt)
  have e: "elements (l\<lparr>cur := n\<rparr>) = take (unat n) (elements l)"
    using un by (simp add: elements_def min_def split: option.splits)
  show ?thesis
    using c w e by (simp add: resize_inited [OF i] resizeExact_inited [OF i] size_EList_def capacity_def)
qed


theorem resize_shrinks_witness:
  "wf_EList example_list \<and> 1 \<le> size_EList example_list \<and>
   resize 1 (example_list, example_world) = Some (Inr (example_list\<lparr>cur := 1\<rparr>, example_world)) \<and>
   resizeExact 1 (example_list, example_world) = Inr (example_list\<lparr>cur := 1\<rparr>, example_world) \<and>
   capacity (example_list\<lparr>cur := 1\<rparr>) = 3 \<and>
   elements (example_list\<lparr>cur := 1\<rparr>) = [11]"
proof -
  have h2: "1 \<le> size_EList example_list" by (simp add: size_EList_def example_list_def)
  from resize_shrinks [OF example_list_wf h2, of example_world] example_list_wf h2
  show ?thesis by (simp add: capacity_def elements_def example_list_def)
qed



section \<open>Properties of the scalar read\<close>

lemma cat_bytes:
  "(word_cat (ucast (drop_bit (8 * (2 * j + 1)) (v :: m128i)) :: 8 word)
             (ucast (drop_bit (8 * (2 * j)) v) :: 8 word) :: 16 word) =
   ucast (drop_bit (16 * j) v)"
proof (rule bit_word_eqI)
  fix n assume n: "n < LENGTH(16)"
  show "bit (word_cat (ucast (drop_bit (8 * (2 * j + 1)) v) :: 8 word)
             (ucast (drop_bit (8 * (2 * j)) v) :: 8 word) :: 16 word) n =
        bit (ucast (drop_bit (16 * j) v) :: 16 word) n"
  proof (cases "n < 8")
    case True
    then show ?thesis using n by (simp add: bit_word_cat_iff bit_ucast_iff bit_drop_bit_eq)
  next
    case False
    then have "8 * (2 * j + 1) + (n - 8) = 16 * j + n" by simp
    moreover have "n - 8 < 8" using n by simp
    ultimately show ?thesis using n False
      by (simp add: bit_word_cat_iff bit_ucast_iff bit_drop_bit_eq)
  qed
qed

lemma byte_at_lane:
  assumes "j < 16"
  shows "byte_at vs (16 * i + j) = ucast (drop_bit (8 * j) (vs ! i))"
  using assms by (simp add: byte_at_def)

lemma load_u8_lane:
  assumes "list l = Some (p, vs)" "unat eltvec < length vs" "unat rowelt < 16"
  shows "load_u8 l eltvec rowelt = Inr (lane_u8 (vs ! unat eltvec) (unat rowelt))"
proof -
  have "16 * unat eltvec + unat rowelt < 16 * length vs" using assms(2,3) by simp
  then show ?thesis
    using assms(3) by (simp add: load_u8_def assms(1) Let_def byte_at_lane lane_u8_def)
qed

lemma load_i16_lane:
  assumes "list l = Some (p, vs)" "unat eltvec < length vs" "unat rowelt < 8"
  shows "load_i16 l eltvec rowelt = Inr (lane_i16 (vs ! unat eltvec) (unat rowelt))"
proof -
  have b: "16 * unat eltvec + 2 * unat rowelt + 1 < 16 * length vs" using assms(2,3) by simp
  have b0: "byte_at vs (16 * unat eltvec + 2 * unat rowelt) =
              ucast (drop_bit (8 * (2 * unat rowelt)) (vs ! unat eltvec))"
    using assms(3) by (simp add: byte_at_lane)
  have b1: "byte_at vs (16 * unat eltvec + 2 * unat rowelt + 1) =
              ucast (drop_bit (8 * (2 * unat rowelt + 1)) (vs ! unat eltvec))"
    using assms(3) byte_at_lane [of "2 * unat rowelt + 1" vs "unat eltvec"] by (simp add: add.assoc)
  show ?thesis
    unfolding load_i16_def assms(1) option.case prod.case Let_def lane_i16_def
    using b by (simp only: b0 b1 cat_bytes if_True)
qed

lemma ceil_div_bound:
  assumes "0 < (W::nat)" "r < R"
  shows "r div ((R + W - 1) div W) < W"
proof -
  define S where "S = (R + W - 1) div W"
  have "R \<le> S * W"
  proof -
    have "R + W - 1 < (S + 1) * W"
      unfolding S_def using assms(1) by (metis Suc_eq_plus1 dividend_less_div_times mult.commute mult_Suc)
    then show ?thesis using assms(1) by simp
  qed
  with assms(2) have "r < S * W" by simp
  then have "r div S < W" by (simp add: less_mult_imp_div_less mult.commute)
  then show ?thesis by (simp add: S_def)
qed


lemma lane_u8_range: "0 \<le> lane_u8 v j \<and> lane_u8 v j \<le> 255"
proof -
  have "uint (w :: 8 word) < 2 ^ LENGTH(8)" for w by (rule uint_lt2p)
  then have "uint (w :: 8 word) \<le> 255" for w using zle_diff1_eq [of "uint w" 256] by simp
  then show ?thesis by (simp add: lane_u8_def)
qed

text \<open>
  C1, as the code has it. For an initialized matrix and \<open>row < nrow\<close>, \<open>col < ncol\<close>,
  \<open>mat\<close> one of E, F, H: no assertion of \<open>elt\<close> fails and no read leaves the buffer; \<open>elt\<close>
  returns lane \<open>row / segLen\<close> of the vector at index
  \<open>col * colstride + (row mod segLen) * rowstride + mat\<close> (no product or sum wraps), read
  as an unsigned 8-bit lane when \<open>wperv = 16\<close> and as a signed 16-bit lane when
  \<open>wperv = 8\<close>. The value is the stored lane itself: \<open>elt\<close> subtracts no bias in either
  mode (the matrix holds none; \<open>bias_\<close> is a member of \<open>SSEData\<close>), so in 8-bit mode it
  lies in 0..255 (\<open>lane_u8_range\<close>).
\<close>

theorem elt_reads_lane:
  assumes "initialized m" and "row < nrow m" and "column < ncol m" and "mtx < 3"
  shows "\<exists>p vs. list (buf m) = Some (p, vs) \<and>
           unat column * unat (colstride m) + (unat row mod unat (nvecrow m)) * unat (rowstride m)
             + unat mtx < length vs \<and>
           unat row div unat (nvecrow m) < unat (wperv m) \<and>
           elt m row column mtx =
             Inr (if wperv m = 16
                  then lane_u8 (vs ! (unat column * unat (colstride m) +
                                      (unat row mod unat (nvecrow m)) * unat (rowstride m) + unat mtx))
                               (unat row div unat (nvecrow m))
                  else lane_i16 (vs ! (unat column * unat (colstride m) +
                                       (unat row mod unat (nvecrow m)) * unat (rowstride m) + unat mtx))
                                (unat row div unat (nvecrow m)))"
proof -
  define W where "W = unat (wperv m)"
  define R where "R = unat (nrow m)"
  define S where "S = unat (nvecrow m)"
  define C where "C = unat (ncol m)"
  define r where "r = unat row"
  define c where "c = unat column"
  define t where "t = unat mtx"
  from assms(1) have ini: "inited m" and wp: "wperv m = 8 \<or> wperv m = 16"
    and Sdef: "S = (R + W - 1) div W" and rs: "rowstride m = 4"
    and cs: "unat (colstride m) = 4 * S"
    and bs: "unat (size_EList (buf m)) = 4 * S * (C + 1)"
    and wf: "wf_EList (buf m)"
    by (simp_all add: initialized_def W_def R_def S_def C_def)
  have W: "W = 8 \<or> W = 16" using wp by (auto simp: W_def)
  have rR: "r < R" using assms(2) by (simp add: r_def R_def word_less_nat_alt)
  have cC: "c < C" using assms(3) by (simp add: c_def C_def word_less_nat_alt)
  have t3: "t < 3" using assms(4) by (simp add: t_def word_less_nat_alt)
  have S0: "0 < S"
  proof -
    have "W \<le> R + W - 1" using rR by simp
    then have "W div W \<le> (R + W - 1) div W" by (rule div_le_mono)
    then show ?thesis using W by (auto simp: Sdef)
  qed
  have nz: "nvecrow m \<noteq> 0" using S0 by (auto simp: S_def)
  have jW: "r div S < W" unfolding Sdef using ceil_div_bound [of W r R] W rR by auto
  define i where "i = c * (4 * S) + (r mod S) * 4 + t"
  have "r mod S < S" using S0 by simp
  then have "(r mod S) * 4 + t < 4 * S" using t3 by simp
  then have "i < (c + 1) * (4 * S)" by (simp add: i_def)
  also have "\<dots> \<le> C * (4 * S)"
  proof -
    have "c + 1 \<le> C" using cC by simp
    then show ?thesis by (rule mult_le_mono1)
  qed
  also have "\<dots> \<le> 4 * S * (C + 1)" by simp
  finally have ib: "i < 4 * S * (C + 1)" .
  have sz64: "4 * S * (C + 1) < 2 ^ 64"
    using unsigned_less [of "size_EList (buf m)", where ?'a = nat] by (simp add: bs)
  have i64: "i < 2 ^ 64" using ib sz64 by simp
  have u_rowvec: "unat (row mod nvecrow m) = r mod S" by (simp add: unat_mod r_def S_def)
  have u_rowelt: "unat (row div nvecrow m) = r div S" by (simp add: unat_div r_def S_def)
  have m1: "unat (column * colstride m) = c * (4 * S)"
  proof -
    have "c * (4 * S) \<le> i" by (simp add: i_def)
    then have "c * (4 * S) < 2 ^ 64" using i64 by (rule le_less_trans)
    then have "unat column * unat (colstride m) < 2 ^ LENGTH(64)" by (simp add: c_def cs)
    then show ?thesis by (simp add: unat_mult_lem [THEN iffD1] c_def cs)
  qed
  have m2: "unat ((row mod nvecrow m) * rowstride m) = (r mod S) * 4"
  proof -
    have "(r mod S) * 4 \<le> i" by (simp add: i_def)
    then have "(r mod S) * 4 < 2 ^ 64" using i64 by (rule le_less_trans)
    then have "unat (row mod nvecrow m) * unat (rowstride m) < 2 ^ LENGTH(64)"
      by (simp add: u_rowvec rs)
    then show ?thesis by (simp add: unat_mult_lem [THEN iffD1] u_rowvec rs)
  qed
  have a1: "unat (column * colstride m + (row mod nvecrow m) * rowstride m) =
              c * (4 * S) + (r mod S) * 4"
  proof -
    have "c * (4 * S) + (r mod S) * 4 \<le> i" by (simp add: i_def)
    then have "c * (4 * S) + (r mod S) * 4 < 2 ^ 64" using i64 by (rule le_less_trans)
    then have "unat (column * colstride m) + unat ((row mod nvecrow m) * rowstride m)
                   < 2 ^ LENGTH(64)"
      by (simp add: m1 m2)
    then show ?thesis by (simp add: unat_add_lem [THEN iffD1] m1 m2)
  qed
  have a2: "unat (column * colstride m + (row mod nvecrow m) * rowstride m + mtx) = i"
  proof -
    have "unat (column * colstride m + (row mod nvecrow m) * rowstride m) + unat mtx
          < 2 ^ LENGTH(64)"
      using i64 by (simp add: a1 i_def t_def)
    then show ?thesis by (simp add: unat_add_lem [THEN iffD1] a1 i_def t_def)
  qed
  have lt: "column * colstride m + (row mod nvecrow m) * rowstride m + mtx < size_EList (buf m)"
    using ib by (simp add: word_less_nat_alt a2 bs)
  have cur0: "cur (buf m) \<noteq> 0"
  proof
    assume "cur (buf m) = 0"
    then have "unat (size_EList (buf m)) = 0" by (simp add: size_EList_def)
    with ib show False by (simp add: bs)
  qed
  with wf obtain p vs where l: "list (buf m) = Some (p, vs)"
    and len: "length vs = unat (sz (buf m))" and cle: "cur (buf m) \<le> sz (buf m)"
    by (cases "list (buf m)") (auto simp: wf_EList_def)
  have "unat (cur (buf m)) = 4 * S * (C + 1)" using bs by (simp only: size_EList_def)
  then have "i < unat (cur (buf m))" using ib by (simp only:)
  also have "\<dots> \<le> length vs" using cle by (simp add: len word_le_nat_alt)
  finally have il: "i < length vs" .
  have idx: "unat column * unat (colstride m) + (unat row mod unat (nvecrow m)) * unat (rowstride m)
               + unat mtx = i"
    by (simp add: i_def c_def cs r_def S_def rs t_def)
  have e: "elt m row column mtx =
             Inr (if wperv m = 16 then lane_u8 (vs ! i) (r div S) else lane_i16 (vs ! i) (r div S))"
  proof (cases "wperv m = 16")
    case True
    then have "r div S < 16" using jW by (simp add: W_def)
    then have "load_u8 (buf m) (column * colstride m + (row mod nvecrow m) * rowstride m + mtx)
                 (row div nvecrow m) = Inr (lane_u8 (vs ! i) (r div S))"
      using load_u8_lane [OF l, of "column * colstride m + (row mod nvecrow m) * rowstride m + mtx"
          "row div nvecrow m"] il
      by (simp add: a2 u_rowelt)
    then show ?thesis
      using ini assms(2,3,4) nz lt True by (simp add: elt_def Let_def)
  next
    case False
    with wp have w8: "wperv m = 8" by simp
    then have "r div S < 8" using jW by (simp add: W_def)
    then have "load_i16 (buf m) (column * colstride m + (row mod nvecrow m) * rowstride m + mtx)
                 (row div nvecrow m) = Inr (lane_i16 (vs ! i) (r div S))"
      using load_i16_lane [OF l, of "column * colstride m + (row mod nvecrow m) * rowstride m + mtx"
          "row div nvecrow m"] il
      by (simp add: a2 u_rowelt)
    then show ?thesis
      using ini assms(2,3,4) nz lt w8 by (simp add: elt_def Let_def)
  qed
  show ?thesis
    using l il jW e unfolding idx by (simp add: r_def S_def W_def)
qed


lemma example_matrix16_initialized: "initialized example_matrix16"
  by (simp add: initialized_def example_matrix16_def size_EList_def wf_EList_def)

lemma example_matrix_initialized: "initialized example_matrix"
  by (simp add: initialized_def example_matrix_def size_EList_def wf_EList_def)

theorem elt_reads_lane_witness:
  "initialized example_matrix16 \<and> 3 < nrow example_matrix16 \<and> 1 < ncol example_matrix16 \<and>
   H < 3 \<and> elt example_matrix16 3 1 H = Inr (- 2)"
proof -
  have h2: "3 < nrow example_matrix16" by (simp add: example_matrix16_def)
  have h3: "1 < ncol example_matrix16" by (simp add: example_matrix16_def)
  have h4: "H < 3" by (simp add: H_def)
  have v: "lane_i16 0xFFFE0005 (Suc 0) = - 2" by (simp add: lane_i16_def)
  from elt_reads_lane [OF example_matrix16_initialized h2 h3 h4]
  have "elt example_matrix16 3 1 H = Inr (- 2)"
    by (simp add: example_matrix16_def H_def nth_append v)
  with example_matrix16_initialized h2 h3 h4 show ?thesis by simp
qed

text \<open>
  The claim's last clause fails: with bias 8 and a stored lane of 10 in 8-bit mode,
  \<open>elt\<close> returns 10, not 10 - 8.
\<close>

theorem elt_no_bias:
  "initialized (mat example_data) \<and> wperv (mat example_data) = 16 \<and>
   0 < nrow (mat example_data) \<and> 0 < ncol (mat example_data) \<and>
   sint (bias example_data) = 8 \<and>
   lane_u8 (storage (buf (mat example_data)) ! 2) 0 = 10 \<and>
   elt (mat example_data) 0 0 H = Inr 10 \<and>
   elt (mat example_data) 0 0 H \<noteq>
     Inr (lane_u8 (storage (buf (mat example_data)) ! 2) 0 - sint (bias example_data))"
proof -
  have e: "elt example_matrix 0 0 H = Inr 10"
    by (simp add: elt_def example_matrix_def H_def size_EList_def load_u8_def byte_at_def Let_def)
  have l: "lane_u8 (storage (buf example_matrix) ! 2) 0 = 10"
    by (simp add: lane_u8_def storage_def example_matrix_def)
  show ?thesis
    using example_matrix_initialized e l
    by (simp add: example_data_def) (simp add: example_matrix_def)
qed

end
